theory Spec2Isabelle
  imports Complex_Main
begin

section \<open>cronista: recorded functions and chronicles\<close>

text \<open>
  A shallow embedding of \<^verbatim>\<open>src/cronista/core.py\<close>.  A recorded function wraps a
  Python callable; calling it yields a chronicle (a Maybe value, a list of log rows and a
  list of printable lines), and \<^verbatim>\<open>bind_record\<close> chains a further recorded function.

  What the Python code takes from outside the repository is not modelled but taken as a
  parameter (record \<open>runtime\<close>): the wall clock and the performance counter, the
  \<^verbatim>\<open>:.3f\<close> float format, \<^verbatim>\<open>repr\<close>, the dict display of the call arguments, and
  \<^verbatim>\<open>difflib\<close>.  Python values are a type parameter \<open>'v\<close>; the state that user
  callables can read and change is a type parameter \<open>'s\<close>.  Floats are read as reals
  (only \<^verbatim>\<open>0.0\<close> and one subtraction occur).  Strings are \<open>string\<close>: a character
  stands for a code point below 256.
\<close>

subsection \<open>Data model\<close>

text \<open>\<^verbatim>\<open>Outcome = str\<close>: the two strings the code writes are kept apart as a datatype;
  \<open>outcome_str\<close> gives the text.\<close>

datatype outcome = Success | Failure

fun outcome_str :: "outcome \<Rightarrow> string" where
  "outcome_str Success = ''OK! Success''"
| "outcome_str Failure = ''NOK! Failure''"

text \<open>A raised Python exception: whether it is an instance of \<^verbatim>\<open>Exception\<close> (false for
  \<^verbatim>\<open>KeyboardInterrupt\<close>, \<^verbatim>\<open>SystemExit\<close>, \<^verbatim>\<open>GeneratorExit\<close> and other direct
  children of \<^verbatim>\<open>BaseException\<close>), \<^verbatim>\<open>type(e).__name__\<close> and \<^verbatim>\<open>str(e)\<close>.\<close>

datatype exn = Exn (derives_Exception: bool) (kind: string) (text_of: string)

text \<open>How a call of user code ends.\<close>

datatype 'v completion = Returned 'v | Raised exn

text \<open>What running the wrapped callable does besides changing the user state: how it
  ends, the texts of the warnings it emitted (in order) and what it wrote to stdout.\<close>

record 'v effects =
  completion :: "'v completion"
  warned :: "string list"
  printed :: string

text \<open>A Python function object: its behaviour, its \<^verbatim>\<open>__name__\<close> (if it has one) and what
  \<^verbatim>\<open>str(inspect.signature(f).bind_partial(*args, **kwargs))\<close> gives after
  \<^verbatim>\<open>apply_defaults()\<close> (\<open>None\<close> when that raises).\<close>

record ('v, 's) pyfunc =
  run :: "'v list \<Rightarrow> (string \<times> 'v) list \<Rightarrow> 's \<Rightarrow> 'v effects \<times> 's"
  dunder_name :: "string option"
  bound_arguments :: "'v list \<Rightarrow> (string \<times> 'v) list \<Rightarrow> string option"

type_synonym ('v, 's) inspector = "'v \<Rightarrow> 's \<Rightarrow> 'v completion \<times> 's"

text \<open>The row key \<^verbatim>\<open>"g"\<close> holds \<^verbatim>\<open>None\<close>, the inspector's result, or the text of the
  inspector's error; the key \<^verbatim>\<open>"diff_obj"\<close> holds \<^verbatim>\<open>None\<close>, a summary string or the
  list of lines of a unified diff.\<close>

datatype 'v g_value = GResult 'v | GText string

datatype diff_value = DiffStr string | DiffLines "string list"

text \<open>One row of \<^verbatim>\<open>log_df\<close> (a dict with these ten keys).  The keys \<^verbatim>\<open>"function"\<close>
  and \<^verbatim>\<open>"g"\<close> are named \<open>function_label\<close> and \<open>g_out\<close> here.\<close>

record 'v log_row =
  ops_number :: int
  outcome :: outcome
  function_label :: string
  message :: "string option"
  start_time :: string
  end_time :: string
  run_time :: real
  g_out :: "'v g_value option"
  diff_obj :: "diff_value option"
  lag_outcome :: "outcome option"

text \<open>\<^verbatim>\<open>class Chronicle\<close>: \<open>val\<close> is the attribute \<^verbatim>\<open>value\<close> (a Maybe), \<open>lines\<close> is
  \<^verbatim>\<open>_lines\<close>.\<close>

record 'v chronicle =
  val :: "'v option"
  log_df :: "'v log_row list"
  lines :: "string list"

text \<open>\<^verbatim>\<open>class RecordedFunction\<close>; \<open>g_insp\<close> is the attribute \<^verbatim>\<open>g\<close>, \<open>None\<close> when it
  is not callable.\<close>

record ('v, 's) recorded_function =
  func :: "('v, 's) pyfunc"
  strict :: int
  g_insp :: "('v, 's) inspector option"
  diff :: string
  fn_label :: string

text \<open>The world a call runs in: the user state, how often the clocks have been read, and
  two counters that are not in the program (they count the calls of wrapped callables and
  of inspectors, so that "is never invoked" can be stated).\<close>

record 's world =
  ustate :: 's
  ticks :: nat
  func_calls :: nat
  g_calls :: nat

type_synonym opcode = "string \<times> int \<times> int \<times> int \<times> int"

text \<open>What comes from Python and its standard library.  \<open>wall_clock n\<close> and
  \<open>perf_clock n\<close> are what \<^verbatim>\<open>datetime.now().isoformat(...)\<close> and
  \<^verbatim>\<open>time.perf_counter()\<close> return at the \<open>n\<close>-th reading of a clock; \<open>py_repr\<close> is
  \<^verbatim>\<open>repr\<close> (\<open>Inl t\<close>: it raised an \<^verbatim>\<open>Exception\<close> with text \<open>t\<close>); \<open>args_dict\<close> builds
  the dict \<^verbatim>\<open>{"args": args, "kwargs": kwargs}\<close>; \<open>get_opcodes a b\<close> is
  \<^verbatim>\<open>difflib.SequenceMatcher(None, a, b).get_opcodes()\<close>; \<open>unified_diff\<close> is
  \<^verbatim>\<open>difflib.unified_diff(a, b, fromfile="input", tofile="output", n=3)\<close>.\<close>

record 'v runtime =
  wall_clock :: "nat \<Rightarrow> string"
  perf_clock :: "nat \<Rightarrow> real"
  format_3f :: "real \<Rightarrow> string"
  py_None :: 'v
  py_repr :: "'v \<Rightarrow> string + string"
  args_dict :: "'v list \<Rightarrow> (string \<times> 'v) list \<Rightarrow> 'v"
  get_opcodes :: "string \<Rightarrow> string \<Rightarrow> opcode list"
  splitlines_keepends :: "string \<Rightarrow> string list"
  unified_diff :: "string list \<Rightarrow> string list \<Rightarrow> string list"

type_synonym ('v, 's) result = "(exn + 'v chronicle) \<times> 's world"

subsection \<open>Helpers\<close>

definition now_iso :: "'v runtime \<Rightarrow> 's world \<Rightarrow> string \<times> 's world" where
  "now_iso rt w = (wall_clock rt (ticks w), w\<lparr>ticks := Suc (ticks w)\<rparr>)"

definition perf_counter :: "'v runtime \<Rightarrow> 's world \<Rightarrow> real \<times> 's world" where
  "perf_counter rt w = (perf_clock rt (ticks w), w\<lparr>ticks := Suc (ticks w)\<rparr>)"

definition safe_repr :: "'v runtime \<Rightarrow> 'v \<Rightarrow> nat \<Rightarrow> string" where
  "safe_repr rt obj limit =
     (let s = (case py_repr rt obj of Inr s \<Rightarrow> s | Inl e \<Rightarrow> ''<unreprable: '' @ e @ ''>'')
      in if length s > limit then take limit s @ '' ... [truncated]'' else s)"

definition format_log_line :: "'v runtime \<Rightarrow> bool \<Rightarrow> string \<Rightarrow> string \<Rightarrow> real \<Rightarrow> string" where
  "format_log_line rt ok fn_lbl started_at elapsed_s =
     (let status = (if ok then ''OK'' else ''NOK'')
      in status @ '' `'' @ fn_lbl @ ''` at '' @ started_at @ '' ('' @ format_3f rt elapsed_s @ ''s)'')"

text \<open>\<^verbatim>\<open>str\<close> of a Python int.\<close>

fun str_nat :: "nat \<Rightarrow> string" where
  "str_nat n = (if n < 10 then [''0123456789'' ! n] else str_nat (n div 10) @ [''0123456789'' ! (n mod 10)])"

declare str_nat.simps [simp del]

definition str_int :: "int \<Rightarrow> string" where
  "str_int i = (if i < 0 then ''-'' @ str_nat (nat (- i)) else str_nat (nat i))"

text \<open>The body of the loop of \<^verbatim>\<open>_summarize_diff\<close> over the opcodes, on the three
  counters \<open>(ins, dels, eq)\<close>.\<close>

fun tally :: "opcode \<Rightarrow> int \<times> int \<times> int \<Rightarrow> int \<times> int \<times> int" where
  "tally (tag, i1, i2, j1, j2) (ins, dels, eq) =
     (if tag = ''insert'' then (ins + (j2 - j1), dels, eq)
      else if tag = ''delete'' then (ins, dels + (i2 - i1), eq)
      else if tag = ''replace'' then (ins + (j2 - j1), dels + (i2 - i1), eq)
      else if tag = ''equal'' then (ins, dels, eq + (i2 - i1))
      else (ins, dels, eq))"

definition summary_sentence :: "int \<times> int \<times> int \<Rightarrow> string" where
  "summary_sentence c =
     (case c of (ins, dels, eq) \<Rightarrow>
        ''Found differences: '' @ str_int ins @ '' insertions, '' @ str_int dels @
        '' deletions, '' @ str_int eq @ '' matches (char units)'')"

definition summarize_diff :: "'v runtime \<Rightarrow> string \<Rightarrow> string \<Rightarrow> string" where
  "summarize_diff rt a b = summary_sentence (fold tally (get_opcodes rt a b) (0, 0, 0))"

text \<open>\<^verbatim>\<open>str.strip()\<close>: the characters below 256 for which \<^verbatim>\<open>str.isspace()\<close> holds.\<close>

definition is_space :: "char \<Rightarrow> bool" where
  "is_space c = (c \<in> set [CHR 0x09, CHR 0x0A, CHR 0x0B, CHR 0x0C, CHR 0x0D, CHR 0x1C, CHR 0x1D,
                           CHR 0x1E, CHR 0x1F, CHR 0x20, CHR 0x85, CHR 0xA0])"

definition strip :: "string \<Rightarrow> string" where
  "strip s = rev (dropWhile is_space (rev (dropWhile is_space s)))"

subsection \<open>The class RecordedFunction\<close>

text \<open>\<^verbatim>\<open>RecordedFunction.__init__(func, strict, g, diff, name)\<close>: the only check is the
  one on \<^verbatim>\<open>diff\<close>.  \<^verbatim>\<open>name or getattr(func, "__name__", "<anonymous>")\<close>: an empty
  name counts as none.\<close>

definition RecordedFunction_init ::
  "('v, 's) pyfunc \<Rightarrow> int \<Rightarrow> ('v, 's) inspector option \<Rightarrow> string \<Rightarrow> string option
    \<Rightarrow> exn + ('v, 's) recorded_function" where
  "RecordedFunction_init f st gi d name =
     (if d \<notin> set [''none'', ''summary'', ''full'']
      then Inl (Exn True ''ValueError'' ''diff must be one of: \"none\", \"summary\", \"full\"'')
      else Inr \<lparr>func = f, strict = st, g_insp = gi, diff = d,
                fn_label = (let dflt = (case dunder_name f of Some n \<Rightarrow> n | None \<Rightarrow> ''<anonymous>'')
                            in case name of None \<Rightarrow> dflt | Some n \<Rightarrow> if n = [] then dflt else n)\<rparr>)"

text \<open>\<^verbatim>\<open>record(func, strict=..., g=..., diff=..., name=...)\<close> called with the function.\<close>

definition record_func ::
  "('v, 's) pyfunc \<Rightarrow> int \<Rightarrow> ('v, 's) inspector option \<Rightarrow> string \<Rightarrow> string option
    \<Rightarrow> exn + ('v, 's) recorded_function" where
  "record_func f st gi d name = RecordedFunction_init f st gi d name"

definition call_signature_fallback ::
  "('v, 's) recorded_function \<Rightarrow> 'v list \<Rightarrow> (string \<times> 'v) list \<Rightarrow> string" where
  "call_signature_fallback self args kwargs =
     (case bound_arguments (func self) args kwargs of
        Some ba \<Rightarrow> fn_label self @ ba
      | None \<Rightarrow> fn_label self)"

text \<open>\<^verbatim>\<open>self.func(*args, **kwargs)\<close> inside the capturing \<^verbatim>\<open>with\<close> block.\<close>

definition call_func ::
  "('v, 's) recorded_function \<Rightarrow> 'v list \<Rightarrow> (string \<times> 'v) list \<Rightarrow> 's world \<Rightarrow> 'v effects \<times> 's world" where
  "call_func self args kwargs w =
     (case run (func self) args kwargs (ustate w) of
        (eff, s') \<Rightarrow> (eff, w\<lparr>ustate := s', func_calls := Suc (func_calls w)\<rparr>))"

text \<open>The \<^verbatim>\<open>try\<close> statement: \<^verbatim>\<open>except Exception\<close> catches the instances of
  \<^verbatim>\<open>Exception\<close> only; any other exception leaves \<^verbatim>\<open>__call__\<close>.  The result is the
  triple \<open>(value, ok, message)\<close> of the local variables.\<close>

definition try_func :: "'v runtime \<Rightarrow> 'v completion \<Rightarrow> exn + ('v \<times> bool \<times> string option)" where
  "try_func rt c =
     (case c of
        Returned v \<Rightarrow> Inr (v, True, None)
      | Raised e \<Rightarrow>
          if derives_Exception e then Inr (py_None rt, False, Some (kind e @ '': '' @ text_of e))
          else Inl e)"

text \<open>The two \<^verbatim>\<open>if\<close> statements under \<^verbatim>\<open># strict policy\<close>, on \<open>(ok, message)\<close>.\<close>

definition strict_policy ::
  "int \<Rightarrow> string list \<Rightarrow> string \<Rightarrow> bool \<times> string option \<Rightarrow> bool \<times> string option" where
  "strict_policy st warning_records out okm =
     (let okm1 = (if fst okm \<and> st \<ge> 2 \<and> length warning_records > 0
                  then (False, Some (''Warning: '' @ hd warning_records)) else okm);
          okm2 = (if fst okm1 \<and> st \<ge> 3
                  then (if strip out \<noteq> [] then (False, Some (''Message: '' @ strip out)) else okm1)
                  else okm1)
      in okm2)"

text \<open>\<^verbatim>\<open># Inspector g\<close>.\<close>

definition run_inspector ::
  "('v, 's) recorded_function \<Rightarrow> bool \<Rightarrow> 'v \<Rightarrow> 's world \<Rightarrow> (exn + 'v g_value option) \<times> 's world" where
  "run_inspector self ok v w =
     (case g_insp self of
        None \<Rightarrow> (Inr None, w)
      | Some insp \<Rightarrow>
          if ok then
            (case insp v (ustate w) of
               (c, s') \<Rightarrow>
                 (let w' = w\<lparr>ustate := s', g_calls := Suc (g_calls w)\<rparr>
                  in case c of
                       Returned gv \<Rightarrow> (Inr (Some (GResult gv)), w')
                     | Raised e \<Rightarrow>
                         if derives_Exception e
                         then (Inr (Some (GText (''<inspector error: '' @ kind e @ '': '' @ text_of e @ ''>''))), w')
                         else (Inl e, w')))
          else (Inr None, w))"

text \<open>\<^verbatim>\<open># Diff\<close>.\<close>

definition compute_diff ::
  "'v runtime \<Rightarrow> ('v, 's) recorded_function \<Rightarrow> bool \<Rightarrow> 'v \<Rightarrow> string \<Rightarrow> diff_value option" where
  "compute_diff rt self ok v input_repr =
     (if diff self \<noteq> ''none'' then
        (let out_repr = (if ok then safe_repr rt v 2000 else ''<no-output>'')
         in if diff self = ''summary'' then Some (DiffStr (summarize_diff rt input_repr out_repr))
            else Some (DiffLines (unified_diff rt (splitlines_keepends rt input_repr)
                                                  (splitlines_keepends rt out_repr))))
      else None)"

text \<open>The rest of \<^verbatim>\<open>__call__\<close> after the strict policy: the clocks, the Maybe, the
  inspector, the diff, the row and the line.\<close>

definition compose_step ::
  "'v runtime \<Rightarrow> ('v, 's) recorded_function \<Rightarrow> 'v list \<Rightarrow> (string \<times> 'v) list \<Rightarrow> string \<Rightarrow> real
    \<Rightarrow> string \<Rightarrow> 'v \<Rightarrow> bool \<Rightarrow> string option \<Rightarrow> 's world \<Rightarrow> ('v, 's) result" where
  "compose_step rt self args kwargs started_at t0 input_repr v ok msg w =
     (case perf_counter rt w of
        (t1, w1) \<Rightarrow>
     (case now_iso rt w1 of
        (ended_at, w2) \<Rightarrow>
     (let elapsed = t1 - t0;
          maybe_val = (if ok then Some v else None)
      in case run_inspector self ok v w2 of
           (Inl e, w3) \<Rightarrow> (Inl e, w3)
         | (Inr g_val, w3) \<Rightarrow>
             (let row = \<lparr>ops_number = 1,
                         outcome = (if ok then Success else Failure),
                         function_label = (if ok then fn_label self
                                           else call_signature_fallback self args kwargs),
                         message = msg,
                         start_time = started_at,
                         end_time = ended_at,
                         run_time = elapsed,
                         g_out = g_val,
                         diff_obj = compute_diff rt self ok v input_repr,
                         lag_outcome = None\<rparr>;
                  line = format_log_line rt ok (fn_label self) started_at elapsed
              in (Inr \<lparr>val = maybe_val, log_df = [row], lines = [line]\<rparr>, w3)))))"

text \<open>The \<^verbatim>\<open>try\<close> statement followed by the strict policy: the value, \<^verbatim>\<open>ok\<close> and
  \<^verbatim>\<open>message\<close> with which the rest of \<^verbatim>\<open>__call__\<close> runs, or the exception that leaves
  it.\<close>

definition step_verdict ::
  "'v runtime \<Rightarrow> ('v, 's) recorded_function \<Rightarrow> 'v effects \<Rightarrow> exn + ('v \<times> bool \<times> string option)" where
  "step_verdict rt self eff =
     (case try_func rt (completion eff) of
        Inl e \<Rightarrow> Inl e
      | Inr (v, ok0, msg0) \<Rightarrow>
          (case strict_policy (strict self) (warned eff) (printed eff) (ok0, msg0) of
             (ok, msg) \<Rightarrow> Inr (v, ok, msg)))"

text \<open>\<^verbatim>\<open>RecordedFunction.__call__(*args, **kwargs)\<close>.\<close>

definition rf_call ::
  "'v runtime \<Rightarrow> ('v, 's) recorded_function \<Rightarrow> 'v list \<Rightarrow> (string \<times> 'v) list \<Rightarrow> 's world
    \<Rightarrow> ('v, 's) result" where
  "rf_call rt self args kwargs w =
     (case now_iso rt w of
        (started_at, w1) \<Rightarrow>
     (case perf_counter rt w1 of
        (t0, w2) \<Rightarrow>
     (let input_repr = safe_repr rt (args_dict rt args kwargs) 2000
      in case call_func self args kwargs w2 of
           (eff, w3) \<Rightarrow>
             (case step_verdict rt self eff of
                Inl e \<Rightarrow> (Inl e, w3)
              | Inr (v, ok, msg) \<Rightarrow>
                  compose_step rt self args kwargs started_at t0 input_repr v ok msg w3))))"

subsection \<open>The class Chronicle\<close>

definition is_ok :: "'v chronicle \<Rightarrow> bool" where
  "is_ok c = (val c \<noteq> None)"

definition read_log :: "'v chronicle \<Rightarrow> string list" where
  "read_log c = lines c"

text \<open>The loop \<^verbatim>\<open>for i, row in enumerate(next_ch.log_df, start=1)\<close> of
  \<^verbatim>\<open>bind_record\<close>, with its variables \<open>i\<close> and \<open>renumbered\<close>.\<close>

fun renumber_loop ::
  "'v log_row list \<Rightarrow> int \<Rightarrow> int \<Rightarrow> 'v log_row list \<Rightarrow> 'v log_row list \<Rightarrow> 'v log_row list" where
  "renumber_loop self_rows next_op i renumbered [] = renumbered"
| "renumber_loop self_rows next_op i renumbered (row # rest) =
     (let nr = row\<lparr>ops_number := next_op - 1 + i,
                   lag_outcome := (if self_rows \<noteq> [] \<and> i = 1 then Some (outcome (last self_rows))
                                   else if renumbered \<noteq> [] then Some (outcome (last renumbered))
                                   else None)\<rparr>
      in renumber_loop self_rows next_op (i + 1) (renumbered @ [nr]) rest)"

text \<open>The body of \<^verbatim>\<open>Chronicle.bind_record(self, rfunc, *args, **kwargs)\<close>.  The test
  \<^verbatim>\<open>not self.is_ok()\<close> is the case \<open>None\<close> of the value.  The body uses
  two things of \<^verbatim>\<open>rfunc\<close>: its attribute \<^verbatim>\<open>fn_label\<close> and its call; they are the
  arguments \<open>lbl\<close> and \<open>invoke\<close>, so that the body can also be run on a step that is
  not a single recorded function.\<close>

definition bind_with ::
  "'v runtime \<Rightarrow> 'v chronicle \<Rightarrow> string
    \<Rightarrow> ('v list \<Rightarrow> (string \<times> 'v) list \<Rightarrow> 's world \<Rightarrow> ('v, 's) result)
    \<Rightarrow> 'v list \<Rightarrow> (string \<times> 'v) list \<Rightarrow> 's world \<Rightarrow> ('v, 's) result" where
  "bind_with rt self lbl invoke args kwargs w =
     (let next_op = int (length (log_df self)) + 1
      in case val self of
           None \<Rightarrow>
             (case now_iso rt w of
                (started_at, w1) \<Rightarrow>
                  (let line = format_log_line rt False lbl started_at 0;
                       new_row = \<lparr>ops_number = next_op,
                                  outcome = Failure,
                                  function_label = lbl,
                                  message = Some ''Short-circuited due to Nothing'',
                                  start_time = started_at,
                                  end_time = started_at,
                                  run_time = 0,
                                  g_out = None,
                                  diff_obj = None,
                                  lag_outcome = (if log_df self \<noteq> [] then Some (outcome (last (log_df self)))
                                                 else None)\<rparr>
                   in (Inr \<lparr>val = val self, log_df = log_df self @ [new_row], lines = lines self @ [line]\<rparr>, w1)))
         | Some base_val \<Rightarrow>
             (case invoke (base_val # args) kwargs w of
                (Inl e, w') \<Rightarrow> (Inl e, w')
              | (Inr next_ch, w') \<Rightarrow>
                  (let renumbered = renumber_loop (log_df self) next_op 1 [] (log_df next_ch)
                   in (Inr \<lparr>val = val next_ch,
                            log_df = log_df self @ renumbered,
                            lines = lines self @ read_log next_ch\<rparr>, w'))))"

definition bind_record ::
  "'v runtime \<Rightarrow> 'v chronicle \<Rightarrow> ('v, 's) recorded_function \<Rightarrow> 'v list \<Rightarrow> (string \<times> 'v) list
    \<Rightarrow> 's world \<Rightarrow> ('v, 's) result" where
  "bind_record rt self rfunc args kwargs w =
     bind_with rt self (fn_label rfunc) (rf_call rt rfunc) args kwargs w"



subsection \<open>Chains\<close>

text \<open>\<^verbatim>\<open>x.bind_record(...)\<close> applied to the result of an earlier call: an exception that left
  the earlier call ends the chain.\<close>

definition and_then ::
  "('v, 's) result \<Rightarrow> ('v chronicle \<Rightarrow> 's world \<Rightarrow> ('v, 's) result) \<Rightarrow> ('v, 's) result" where
  "and_then res k = (case res of (Inl e, w) \<Rightarrow> (Inl e, w) | (Inr ch, w) \<Rightarrow> k ch w)"

text \<open>The step "\<open>b\<close> then \<open>c\<close>" as one callable:
  \<^verbatim>\<open>lambda *args, **kwargs: b(*args, **kwargs).bind_record(c, *c_args, **c_kwargs)\<close>.\<close>

definition combined_call ::
  "'v runtime \<Rightarrow> ('v, 's) recorded_function \<Rightarrow> ('v, 's) recorded_function \<Rightarrow> 'v list
    \<Rightarrow> (string \<times> 'v) list \<Rightarrow> 'v list \<Rightarrow> (string \<times> 'v) list \<Rightarrow> 's world \<Rightarrow> ('v, 's) result" where
  "combined_call rt b c c_args c_kwargs args kwargs w =
     and_then (rf_call rt b args kwargs w) (\<lambda>ch. bind_record rt ch c c_args c_kwargs)"

text \<open>The chronicles of the public interface: what a call of a recorded function returns,
  and what \<^verbatim>\<open>bind_record\<close> returns on such a chronicle.  The world is the one the
  chronicle was returned in.\<close>

inductive produced :: "'v runtime \<Rightarrow> 'v chronicle \<Rightarrow> 's world \<Rightarrow> bool" for rt :: "'v runtime" where
  by_call: "rf_call rt r args kwargs w = (Inr ch, w') \<Longrightarrow> produced rt ch w'"
| by_bind: "produced rt ch w0 \<Longrightarrow> bind_record rt ch r args kwargs w = (Inr ch', w')
            \<Longrightarrow> produced rt ch' w'"

subsection \<open>The properties of the specification, as definitions\<close>

text \<open>The renumbering in the specification's words: the \<open>i\<close>-th row of the next chronicle
  (from 0) gets the number \<open>len(old) + 1 + i\<close>, and as prior outcome the outcome of the row
  before it in the merged sequence.\<close>

definition renumbered_spec :: "'v log_row list \<Rightarrow> 'v log_row list \<Rightarrow> 'v log_row list" where
  "renumbered_spec old nxt =
     map (\<lambda>i. (nxt ! i)\<lparr>ops_number := int (length old) + 1 + int i,
                        lag_outcome := (if i = 0 then (if old = [] then None else Some (outcome (last old)))
                                        else Some (outcome (nxt ! (i - 1))))\<rparr>)
         [0..<length nxt]"

text \<open>The same, by recursion over the rows (used in the proofs).\<close>

fun relink :: "outcome option \<Rightarrow> int \<Rightarrow> 'v log_row list \<Rightarrow> 'v log_row list" where
  "relink prev n [] = []"
| "relink prev n (r # rs) = r\<lparr>ops_number := n, lag_outcome := prev\<rparr> # relink (Some (outcome r)) (n + 1) rs"

text \<open>Every row's \<^verbatim>\<open>lag_outcome\<close> is the outcome of the row before it; \<open>prev\<close> is what
  the first row must hold.\<close>

fun lag_linked :: "outcome option \<Rightarrow> 'v log_row list \<Rightarrow> bool" where
  "lag_linked prev [] = True"
| "lag_linked prev (r # rs) = (lag_outcome r = prev \<and> lag_linked (Some (outcome r)) rs)"







text \<open>A callable with its warnings and its printed output taken away.\<close>

definition silenced :: "('v, 's) pyfunc \<Rightarrow> ('v, 's) pyfunc" where
  "silenced f = f\<lparr>run := (\<lambda>args kwargs s. case run f args kwargs s of
                                            (eff, s') \<Rightarrow> (eff\<lparr>warned := [], printed := []\<rparr>, s'))\<rparr>"

subsection \<open>The scenario of tests/test\_propagation.py\<close>

text \<open>Values are \<^verbatim>\<open>None\<close>, ints and the dict of the call arguments; the user state is the
  counter \<^verbatim>\<open>executed["count"]\<close>.  The clock stands still, \<^verbatim>\<open>repr\<close> never raises, and
  \<^verbatim>\<open>difflib\<close> reports one replaced block.\<close>

datatype pyval = NoneV | IntV int | ArgsV "pyval list"

definition test_rt :: "pyval runtime" where
  "test_rt = \<lparr>wall_clock = (\<lambda>n. ''2025-01-01 12:00:00''),
              perf_clock = (\<lambda>n. 0),
              format_3f = (\<lambda>x. ''0.000''),
              py_None = NoneV,
              py_repr = (\<lambda>v. case v of NoneV \<Rightarrow> Inr ''None'' | IntV i \<Rightarrow> Inr (str_int i)
                                        | ArgsV vs \<Rightarrow> Inr ''{...}''),
              args_dict = (\<lambda>args kwargs. ArgsV args),
              get_opcodes = (\<lambda>a b. [(''replace'', 0, int (length a), 0, int (length b))]),
              splitlines_keepends = (\<lambda>s. [s]),
              unified_diff = (\<lambda>a b. [])\<rparr>"

definition quiet :: "pyval completion \<Rightarrow> pyval effects" where
  "quiet c = \<lparr>completion = c, warned = [], printed = []\<rparr>"

definition int_func :: "string \<Rightarrow> (int \<Rightarrow> nat \<Rightarrow> pyval effects \<times> nat) \<Rightarrow> (pyval, nat) pyfunc" where
  "int_func name body =
     \<lparr>run = (\<lambda>args kwargs s. case args of
                 [IntV x] \<Rightarrow> body x s
               | _ \<Rightarrow> (quiet (Raised (Exn True ''TypeError'' ''unsupported operand'')), s)),
      dunder_name = Some name,
      bound_arguments = (\<lambda>args kwargs. None)\<rparr>"

definition plain :: "(pyval, nat) pyfunc \<Rightarrow> (pyval, nat) recorded_function" where
  "plain f = \<lparr>func = f, strict = 1, g_insp = None, diff = ''none'',
              fn_label = (case dunder_name f of Some n \<Rightarrow> n | None \<Rightarrow> ''<anonymous>'')\<rparr>"

definition r_add1 :: "(pyval, nat) recorded_function" where
  "r_add1 = plain (int_func ''add1'' (\<lambda>x s. (quiet (Returned (IntV (x + 1))), s)))"

definition r_double :: "(pyval, nat) recorded_function" where
  "r_double = plain (int_func ''double'' (\<lambda>x s. (quiet (Returned (IntV (x * 2))), s)))"

definition r_fail :: "(pyval, nat) recorded_function" where
  "r_fail = plain (int_func ''will_fail''
              (\<lambda>x s. (quiet (Raised (Exn True ''ZeroDivisionError'' ''division by zero'')), s)))"

definition r_add10 :: "(pyval, nat) recorded_function" where
  "r_add10 = plain (int_func ''add10'' (\<lambda>x s. (quiet (Returned (IntV (x + 10))), Suc s)))"

definition w0 :: "nat world" where
  "w0 = \<lparr>ustate = 0, ticks = 0, func_calls = 0, g_calls = 0\<rparr>"

text \<open>\<^verbatim>\<open>r_add1(5).bind_record(r_double).bind_record(r_fail)\<close> and the chain of the test,
  which binds \<^verbatim>\<open>r_add10\<close> after it.\<close>

definition chain3 :: "(pyval, nat) result" where
  "chain3 = and_then (and_then (rf_call test_rt r_add1 [IntV 5] [] w0)
                        (\<lambda>ch. bind_record test_rt ch r_double [] []))
                     (\<lambda>ch. bind_record test_rt ch r_fail [] [])"

definition chain4 :: "(pyval, nat) result" where
  "chain4 = and_then chain3 (\<lambda>ch. bind_record test_rt ch r_add10 [] [])"

text \<open>Further callables: one that ends as told, with given warnings and printed text, and
  three inspectors.\<close>

definition emitter :: "pyval completion \<Rightarrow> string list \<Rightarrow> string \<Rightarrow> (pyval, nat) pyfunc" where
  "emitter c ws out =
     \<lparr>run = (\<lambda>args kwargs s. (\<lparr>completion = c, warned = ws, printed = out\<rparr>, s)),
      dunder_name = Some ''emitter'',
      bound_arguments = (\<lambda>args kwargs. None)\<rparr>"

definition r_noisy :: "int \<Rightarrow> (pyval, nat) recorded_function" where
  "r_noisy st = (plain (emitter (Returned (IntV 1)) [''deprecated'', ''slow''] '' hi ''))\<lparr>strict := st\<rparr>"

definition r_talker :: "int \<Rightarrow> (pyval, nat) recorded_function" where
  "r_talker st = (plain (emitter (Returned (IntV 1)) [] '' hi ''))\<lparr>strict := st\<rparr>"







text \<open>The chronicle a chain ended with (an empty one when an exception left the chain).\<close>

definition chronicle_of :: "('v, 's) result \<Rightarrow> 'v chronicle" where
  "chronicle_of res = (case fst res of Inr ch \<Rightarrow> ch | Inl e \<Rightarrow> \<lparr>val = None, log_df = [], lines = []\<rparr>)"

text \<open>A chain that starts with a failing step: \<^verbatim>\<open>r_fail(5)\<close>, then
  \<^verbatim>\<open>.bind_record(r_double).bind_record(r_add10)\<close> on the one hand and one bind of the
  combined step "\<^verbatim>\<open>r_double\<close> then \<^verbatim>\<open>r_add10\<close>" on the other.\<close>

definition failed_start :: "(pyval, nat) result" where
  "failed_start = rf_call test_rt r_fail [IntV 5] [] w0"

definition chained :: "(pyval, nat) result" where
  "chained = and_then (and_then failed_start (\<lambda>ch. bind_record test_rt ch r_double [] []))
                      (\<lambda>ch. bind_record test_rt ch r_add10 [] [])"

definition combined :: "(pyval, nat) result" where
  "combined = and_then failed_start
                (\<lambda>ch. bind_with test_rt ch ''double_then_add10''
                        (combined_call test_rt r_double r_add10 [] []) [] [])"

section \<open>Proofs\<close>

lemmas test_defs = r_add1_def r_double_def r_fail_def r_add10_def plain_def int_func_def quiet_def
  test_rt_def w0_def

lemmas call_defs = rf_call_def step_verdict_def compose_step_def call_func_def try_func_def strict_policy_def
  run_inspector_def compute_diff_def call_signature_fallback_def now_iso_def perf_counter_def
  format_log_line_def safe_repr_def

lemmas bind_defs = bind_record_def bind_with_def and_then_def read_log_def

subsection \<open>The renumbering loop\<close>

text \<open>The loop of \<^verbatim>\<open>bind_record\<close> computes what the specification describes.\<close>

lemma relink_length [simp]: "length (relink prev n rows) = length rows"
  by (induction rows arbitrary: prev n) auto

lemma relink_Nil_iff [simp]: "(relink prev n rows = []) = (rows = [])"
  by (cases rows) auto

lemma relink_outcome [simp]: "map outcome (relink prev n rows) = map outcome rows"
  by (induction rows arbitrary: prev n) auto

lemma relink_last_outcome: "rows \<noteq> [] \<Longrightarrow> outcome (last (relink prev n rows)) = outcome (last rows)"
  by (induction rows arbitrary: prev n) auto

lemma renumber_loop_relink:
  "1 \<le> i \<Longrightarrow> (i = 1) = (acc = []) \<Longrightarrow>
   renumber_loop srows nop i acc rows =
     acc @ relink (if acc = [] then (if srows = [] then None else Some (outcome (last srows)))
                   else Some (outcome (last acc))) (nop - 1 + i) rows"
proof (induction rows arbitrary: i acc)
  case Nil
  then show ?case by simp
next
  case (Cons r rs)
  show ?case
  proof (cases "acc = []")
    case True
    with Cons.prems have i: "i = 1" by simp
    show ?thesis
      using True i Cons.IH [of 2 "[r\<lparr>ops_number := nop, lag_outcome := (if srows = [] then None else Some (outcome (last srows)))\<rparr>]"]
      by (auto simp: Let_def add.commute)
  next
    case False
    with Cons.prems have i: "i \<noteq> 1" "1 \<le> i" by simp_all
    show ?thesis
      using False i Cons.IH [of "i + 1" "acc @ [r\<lparr>ops_number := nop - 1 + i, lag_outcome := Some (outcome (last acc))\<rparr>]"]
      by (auto simp: Let_def)
  qed
qed

lemma relink_nth:
  "relink prev n rows =
     map (\<lambda>i. (rows ! i)\<lparr>ops_number := n + int i,
                         lag_outcome := (if i = 0 then prev else Some (outcome (rows ! (i - 1))))\<rparr>)
         [0..<length rows]"
proof (induction rows arbitrary: prev n)
  case Nil
  then show ?case by simp
next
  case (Cons r rs)
  show ?case
    by (simp add: map_upt_Suc Cons.IH del: upt_Suc) 
qed

lemma renumber_loop_spec:
  "renumber_loop old (int (length old) + 1) 1 [] nxt = renumbered_spec old nxt"
  by (simp add: renumber_loop_relink relink_nth renumbered_spec_def)

lemma lag_linked_append:
  "lag_linked prev (xs @ ys) =
     (lag_linked prev xs \<and> lag_linked (if xs = [] then prev else Some (outcome (last xs))) ys)"
  by (induction xs arbitrary: prev) auto

lemma lag_linked_nth:
  "lag_linked prev rows =
     (\<forall>i<length rows. lag_outcome (rows ! i) = (if i = 0 then prev else Some (outcome (rows ! (i - 1)))))"
proof (induction rows arbitrary: prev)
  case Nil
  then show ?case by simp
next
  case (Cons r rs)
  show ?case
    by (simp add: Cons.IH All_less_Suc2) (auto simp: nth_Cons')
qed

subsection \<open>What a call and a bind return\<close>

lemma compose_step_shape:
  "compose_step rt r args kwargs st t0 ir v ok msg w = (Inr ch, w') \<Longrightarrow>
   \<exists>row line. log_df ch = [row] \<and> lines ch = [line] \<and> ops_number row = 1 \<and> lag_outcome row = None
     \<and> outcome row = (if ok then Success else Failure) \<and> val ch = (if ok then Some v else None)
     \<and> message row = msg"
  by (auto simp: compose_step_def perf_counter_def now_iso_def Let_def split: prod.splits sum.splits)

lemma rf_call_shape:
  "rf_call rt r args kwargs w = (Inr ch, w') \<Longrightarrow>
   \<exists>row line. log_df ch = [row] \<and> lines ch = [line] \<and> ops_number row = 1 \<and> lag_outcome row = None
     \<and> (outcome row = Success) = (val ch \<noteq> None)"
  apply (auto simp: rf_call_def perf_counter_def now_iso_def Let_def split: prod.splits sum.splits dest!: compose_step_shape)
  done

lemma bind_record_Some:
  "val c = Some v \<Longrightarrow>
   bind_record rt c r args kwargs w =
     (case rf_call rt r (v # args) kwargs w of
        (Inl e, w') \<Rightarrow> (Inl e, w')
      | (Inr next_ch, w') \<Rightarrow>
          (Inr \<lparr>val = val next_ch,
                log_df = log_df c @ renumbered_spec (log_df c) (log_df next_ch),
                lines = lines c @ lines next_ch\<rparr>, w'))"
  by (simp add: bind_record_def bind_with_def renumber_loop_spec read_log_def split: prod.splits sum.splits)

lemma bind_record_None:
  "val c = None \<Longrightarrow>
   bind_record rt c r args kwargs w =
     (Inr \<lparr>val = None,
           log_df = log_df c @
             [\<lparr>ops_number = int (length (log_df c)) + 1,
               outcome = Failure,
               function_label = fn_label r,
               message = Some ''Short-circuited due to Nothing'',
               start_time = wall_clock rt (ticks w),
               end_time = wall_clock rt (ticks w),
               run_time = 0,
               g_out = None,
               diff_obj = None,
               lag_outcome = (if log_df c = [] then None else Some (outcome (last (log_df c))))\<rparr>],
           lines = lines c @ [format_log_line rt False (fn_label r) (wall_clock rt (ticks w)) 0]\<rparr>,
      w\<lparr>ticks := Suc (ticks w)\<rparr>)"
  by (simp add: bind_record_def bind_with_def now_iso_def)

lemma renumbered_spec_single:
  "renumbered_spec old [row] =
     [row\<lparr>ops_number := int (length old) + 1,
          lag_outcome := (if old = [] then None else Some (outcome (last old)))\<rparr>]"
  by (simp add: renumbered_spec_def)

lemma bind_record_step:
  assumes "bind_record rt c r args kwargs w = (Inr c', w')"
  shows "\<exists>row line. log_df c' = log_df c @ [row] \<and> lines c' = lines c @ [line]
           \<and> ops_number row = int (length (log_df c)) + 1
           \<and> lag_outcome row = (if log_df c = [] then None else Some (outcome (last (log_df c))))
           \<and> (val c' \<noteq> None) = (val c \<noteq> None \<and> outcome row = Success)"
proof (cases "val c")
  case None
  from assms show ?thesis
    unfolding bind_record_None [OF None] by auto
next
  case (Some v)
  from assms obtain nxt where call: "rf_call rt r (v # args) kwargs w = (Inr nxt, w')"
    and c': "c' = \<lparr>val = val nxt, log_df = log_df c @ renumbered_spec (log_df c) (log_df nxt),
                    lines = lines c @ lines nxt\<rparr>"
    unfolding bind_record_Some [OF Some] by (auto split: prod.splits sum.splits)
  from rf_call_shape [OF call] obtain row line where
    "log_df nxt = [row]" "lines nxt = [line]" "(outcome row = Success) = (val nxt \<noteq> None)"
    by blast
  then show ?thesis
    using Some c' by (simp add: renumbered_spec_single)
qed

lemma upto_as_map: "[1..int n] = map (\<lambda>i. 1 + int i) [0..<n]"
  by (induction n) (auto simp: upto_rec2)

text \<open>Invariants of the chronicles of the public interface.\<close>

lemma produced_rows:
  "produced rt ch w \<Longrightarrow>
     log_df ch \<noteq> [] \<and> length (log_df ch) = length (lines ch) \<and>
     map ops_number (log_df ch) = map (\<lambda>i. 1 + int i) [0..<length (log_df ch)]"
proof (induction rule: produced.induct)
  case (by_call r args kwargs w ch w')
  from rf_call_shape [OF by_call] show ?case by auto
next
  case (by_bind ch w0 r args kwargs w ch' w')
  from bind_record_step [OF by_bind.hyps(2)] by_bind.IH show ?case
    by auto
qed

lemma produced_lag: "produced rt ch w \<Longrightarrow> lag_linked None (log_df ch)"
proof (induction rule: produced.induct)
  case (by_call r args kwargs w ch w')
  from rf_call_shape [OF by_call] show ?case by auto
next
  case (by_bind ch w0 r args kwargs w ch' w')
  from bind_record_step [OF by_bind.hyps(2)] by_bind.IH show ?case
    by (auto simp: lag_linked_append)
qed

lemma produced_ok:
  "produced rt ch w \<Longrightarrow> (val ch \<noteq> None) = (\<forall>row\<in>set (log_df ch). outcome row = Success)"
proof (induction rule: produced.induct)
  case (by_call r args kwargs w ch w')
  from rf_call_shape [OF by_call] show ?case by auto
next
  case (by_bind ch w0 r args kwargs w ch' w')
  from bind_record_step [OF by_bind.hyps(2)] by_bind.IH show ?case
    by auto
qed

subsection \<open>The parts of a call\<close>

lemma strip_nonempty: "(strip s \<noteq> []) = (\<exists>c\<in>set s. \<not> is_space c)"
proof -
  have "(\<forall>x\<in>set (dropWhile is_space s). is_space x) = (\<forall>x\<in>set s. is_space x)"
  proof
    assume a: "\<forall>x\<in>set (dropWhile is_space s). is_space x"
    have "dropWhile is_space s = []"
    proof (rule ccontr)
      assume ne: "dropWhile is_space s \<noteq> []"
      then have "\<not> is_space (hd (dropWhile is_space s))" by (rule hd_dropWhile)
      moreover have "hd (dropWhile is_space s) \<in> set (dropWhile is_space s)" using ne by simp
      ultimately show False using a by blast
    qed
    then show "\<forall>x\<in>set s. is_space x" by (simp add: dropWhile_eq_Nil_conv)
  next
    assume "\<forall>x\<in>set s. is_space x"
    then show "\<forall>x\<in>set (dropWhile is_space s). is_space x"
      by (meson set_dropWhileD)
  qed
  then show ?thesis
    by (auto simp: strip_def dropWhile_eq_Nil_conv)
qed

lemma compose_step_failed:
  "compose_step rt r args kwargs st t0 ir v False msg w =
     (Inr \<lparr>val = None,
           log_df = [\<lparr>ops_number = 1, outcome = Failure,
                      function_label = call_signature_fallback r args kwargs,
                      message = msg, start_time = st, end_time = wall_clock rt (Suc (ticks w)),
                      run_time = perf_clock rt (ticks w) - t0, g_out = None,
                      diff_obj = compute_diff rt r False v ir, lag_outcome = None\<rparr>],
           lines = [format_log_line rt False (fn_label r) st (perf_clock rt (ticks w) - t0)]\<rparr>,
      w\<lparr>ticks := Suc (Suc (ticks w))\<rparr>)"
  by (simp add: compose_step_def perf_counter_def now_iso_def run_inspector_def Let_def split: option.splits)

lemma rf_call_verdict:
  "run (func r) args kwargs (ustate w) = (eff, s') \<Longrightarrow>
   rf_call rt r args kwargs w =
     (case step_verdict rt r eff of
        Inl e \<Rightarrow> (Inl e, w\<lparr>ticks := Suc (Suc (ticks w)), ustate := s', func_calls := Suc (func_calls w)\<rparr>)
      | Inr (v, ok, msg) \<Rightarrow>
          compose_step rt r args kwargs (wall_clock rt (ticks w)) (perf_clock rt (Suc (ticks w)))
            (safe_repr rt (args_dict rt args kwargs) 2000) v ok msg
            (w\<lparr>ticks := Suc (Suc (ticks w)), ustate := s', func_calls := Suc (func_calls w)\<rparr>))"
  by (simp add: rf_call_def now_iso_def perf_counter_def call_func_def split: sum.splits prod.splits)

lemma run_inspector_func [simp]: "run_inspector (r\<lparr>func := f\<rparr>) = run_inspector r"
  by (intro ext) (simp add: run_inspector_def)

lemma compute_diff_func [simp]: "compute_diff rt (r\<lparr>func := f\<rparr>) = compute_diff rt r"
  by (intro ext) (simp add: compute_diff_def)

lemma fallback_silenced [simp]:
  "call_signature_fallback (r\<lparr>func := silenced (func r)\<rparr>) = call_signature_fallback r"
  by (intro ext) (simp add: call_signature_fallback_def silenced_def split: option.splits)

lemma compose_step_silenced:
  "compose_step rt (r\<lparr>func := silenced (func r)\<rparr>) = compose_step rt r"
  by (intro ext) (auto simp: compose_step_def Let_def split: prod.splits sum.splits)

lemma strict_policy_low: "st < 2 \<Longrightarrow> strict_policy st ws out okm = okm"
  by (simp add: strict_policy_def Let_def)

lemma run_inspector_strict [simp]: "run_inspector (r\<lparr>strict := st\<rparr>) = run_inspector r"
  by (intro ext) (simp add: run_inspector_def)

lemma compute_diff_strict [simp]: "compute_diff rt (r\<lparr>strict := st\<rparr>) = compute_diff rt r"
  by (intro ext) (simp add: compute_diff_def)

lemma fallback_strict [simp]:
  "call_signature_fallback (r\<lparr>strict := st\<rparr>) = call_signature_fallback r"
  by (intro ext) (simp add: call_signature_fallback_def split: option.splits)

lemma compose_step_strict: "compose_step rt (r\<lparr>strict := st\<rparr>) = compose_step rt r"
  by (intro ext) (auto simp: compose_step_def Let_def split: prod.splits sum.splits)

lemma call_func_strict: "call_func (r\<lparr>strict := st\<rparr>) = call_func r"
  by (intro ext) (simp add: call_func_def)

lemma rf_call_strict_cong:
  assumes "\<And>ws out okm. strict_policy a ws out okm = strict_policy b ws out okm"
  shows "rf_call rt (r\<lparr>strict := a\<rparr>) = rf_call rt (r\<lparr>strict := b\<rparr>)"
proof -
  have "step_verdict rt (r\<lparr>strict := a\<rparr>) = step_verdict rt (r\<lparr>strict := b\<rparr>)"
    by (intro ext) (simp add: step_verdict_def assms split: sum.splits prod.splits)
  then show ?thesis
    by (intro ext) (simp add: rf_call_def compose_step_strict call_func_strict
        split: sum.splits prod.splits)
qed












subsection \<open>Merging is associative\<close>

lemma relink_append:
  "relink p n (xs @ ys) =
     relink p n xs @ relink (if xs = [] then p else Some (outcome (last xs))) (n + int (length xs)) ys"
  by (induction xs arbitrary: p n) (auto simp: add.assoc)

lemma relink_relink [simp]: "relink p n (relink q m ys) = relink p n ys"
  by (induction ys arbitrary: p n q m) auto

lemma bind_with_Some:
  "val a = Some v \<Longrightarrow>
   bind_with rt a lbl invoke args kwargs w =
     (case invoke (v # args) kwargs w of
        (Inl e, w') \<Rightarrow> (Inl e, w')
      | (Inr nx, w') \<Rightarrow>
          (Inr \<lparr>val = val nx,
                log_df = log_df a @
                  relink (if log_df a = [] then None else Some (outcome (last (log_df a))))
                    (int (length (log_df a)) + 1) (log_df nx),
                lines = lines a @ lines nx\<rparr>, w'))"
  by (simp add: bind_with_def renumber_loop_relink read_log_def split: prod.splits sum.splits)

lemma bind_with_None:
  "val a = None \<Longrightarrow>
   bind_with rt a lbl invoke args kwargs w =
     (Inr \<lparr>val = None,
           log_df = log_df a @
             [\<lparr>ops_number = int (length (log_df a)) + 1, outcome = Failure, function_label = lbl,
               message = Some ''Short-circuited due to Nothing'',
               start_time = wall_clock rt (ticks w), end_time = wall_clock rt (ticks w),
               run_time = 0, g_out = None, diff_obj = None,
               lag_outcome = (if log_df a = [] then None else Some (outcome (last (log_df a))))\<rparr>],
           lines = lines a @ [format_log_line rt False lbl (wall_clock rt (ticks w)) 0]\<rparr>,
      w\<lparr>ticks := Suc (ticks w)\<rparr>)"
  by (simp add: bind_with_def now_iso_def)

lemma merge_assoc:
  assumes "val a = Some v"
  shows "and_then (bind_with rt a l1 f args kwargs w) (\<lambda>ch. bind_with rt ch l2 g c_args c_kwargs) =
         bind_with rt a lbl (\<lambda>xs ks w1. and_then (f xs ks w1) (\<lambda>ch. bind_with rt ch l2 g c_args c_kwargs))
           args kwargs w"
proof -
  obtain x w1 where f: "f (v # args) kwargs w = (x, w1)" by (cases "f (v # args) kwargs w")
  show ?thesis
  proof (cases x)
    case (Inl e)
    with f assms show ?thesis by (simp add: bind_with_Some and_then_def)
  next
    case (Inr nb)
    show ?thesis
    proof (cases "val nb")
      case None
      with f Inr assms show ?thesis
        by (simp add: bind_with_Some and_then_def bind_with_None relink_append relink_last_outcome)
    next
      case (Some u)
      obtain y w2 where g: "g (u # c_args) c_kwargs w1 = (y, w2)" by (cases "g (u # c_args) c_kwargs w1")
      show ?thesis
      proof (cases y)
        case (Inl e)
        with f Inr assms Some g show ?thesis by (simp add: bind_with_Some and_then_def)
      next
        case (Inr nc)
        with f \<open>x = Inr nb\<close> assms Some g show ?thesis
          by (simp add: bind_with_Some and_then_def relink_append relink_last_outcome ac_simps)
      qed
    qed
  qed
qed


lemma bind_record_as_bind_with:
  "bind_record rt ch r args kwargs = bind_with rt ch (fn_label r) (rf_call rt r) args kwargs"
  by (intro ext) (simp add: bind_record_def)

subsection \<open>The test scenario, evaluated\<close>

lemma produced_call_res:
  "fst (rf_call rt r args kwargs w) = Inr ch \<Longrightarrow> produced rt ch (snd (rf_call rt r args kwargs w))"
  by (rule by_call [of rt r args kwargs w]) (simp add: prod_eq_iff)

lemma produced_bind_res:
  assumes "fst (and_then res (\<lambda>ch. bind_record rt ch r args kwargs)) = Inr c'"
    and "\<And>c. fst res = Inr c \<Longrightarrow> produced rt c (snd res)"
  shows "produced rt c' (snd (and_then res (\<lambda>ch. bind_record rt ch r args kwargs)))"
proof -
  obtain x w where res: "res = (x, w)" by (cases res)
  show ?thesis
  proof (cases x)
    case (Inl e)
    with assms(1) res show ?thesis by (simp add: and_then_def)
  next
    case (Inr c)
    with res assms(2) have p: "produced rt c w" by simp
    have eq: "and_then res (\<lambda>ch. bind_record rt ch r args kwargs) = bind_record rt c r args kwargs w"
      using res Inr by (simp add: and_then_def)
    show ?thesis
      unfolding eq using assms(1) by_bind [OF p, of r args kwargs w c']
      by (simp add: eq prod_eq_iff)
  qed
qed

lemma chain4_value:
  "chain4 =
    (Inr \<lparr>val = None,
          log_df =
            [\<lparr>ops_number = 1, outcome = Success, function_label = ''add1'', message = None,
              start_time = ''2025-01-01 12:00:00'', end_time = ''2025-01-01 12:00:00'', run_time = 0,
              g_out = None, diff_obj = None, lag_outcome = None\<rparr>,
             \<lparr>ops_number = 2, outcome = Success, function_label = ''double'', message = None,
              start_time = ''2025-01-01 12:00:00'', end_time = ''2025-01-01 12:00:00'', run_time = 0,
              g_out = None, diff_obj = None, lag_outcome = Some Success\<rparr>,
             \<lparr>ops_number = 3, outcome = Failure, function_label = ''will_fail'',
              message = Some ''ZeroDivisionError: division by zero'',
              start_time = ''2025-01-01 12:00:00'', end_time = ''2025-01-01 12:00:00'', run_time = 0,
              g_out = None, diff_obj = None, lag_outcome = Some Success\<rparr>,
             \<lparr>ops_number = 4, outcome = Failure, function_label = ''add10'',
              message = Some ''Short-circuited due to Nothing'',
              start_time = ''2025-01-01 12:00:00'', end_time = ''2025-01-01 12:00:00'', run_time = 0,
              g_out = None, diff_obj = None, lag_outcome = Some Failure\<rparr>],
          lines =
            [''OK `add1` at 2025-01-01 12:00:00 (0.000s)'',
             ''OK `double` at 2025-01-01 12:00:00 (0.000s)'',
             ''NOK `will_fail` at 2025-01-01 12:00:00 (0.000s)'',
             ''NOK `add10` at 2025-01-01 12:00:00 (0.000s)'']\<rparr>,
     \<lparr>ustate = 0, ticks = 13, func_calls = 3, g_calls = 0\<rparr>)"
  by (simp add: chain4_def chain3_def test_defs call_defs bind_defs)

lemma chain4_produced: "produced test_rt (chronicle_of chain4) (snd chain4)"
proof -
  have e: "fst chain4 = Inr (chronicle_of chain4)"
    by (simp add: chain4_value chronicle_of_def)
  show ?thesis
    using e unfolding chain4_def chain3_def
    by (intro produced_bind_res produced_call_res) 
qed

subsection \<open>C1: binding on an absent value\<close>

text \<open>
  C1.  For every chronicle whose value is absent, \<^verbatim>\<open>bind_record\<close> with any recorded
  function returns the chronicle extended by one synthetic row and one line, and the value
  stays absent.  The row has \<^verbatim>\<open>ops_number = len(old rows) + 1\<close>, outcome Failure, the
  recorder's label, the message \<^verbatim>\<open>"Short-circuited due to Nothing"\<close>, run time 0, no
  inspector result and no diff; the line is the NOK line with zero elapsed time.  The
  wrapped callable is not invoked: the right-hand side mentions of the recorder only its
  label, and the world changes only by one reading of the clock (the user state and the
  counter of calls are as before).
\<close>

theorem bind_record_absent:
  "val c = None \<Longrightarrow>
   bind_record rt c r args kwargs w =
     (Inr \<lparr>val = None,
           log_df = log_df c @
             [\<lparr>ops_number = int (length (log_df c)) + 1,
               outcome = Failure,
               function_label = fn_label r,
               message = Some ''Short-circuited due to Nothing'',
               start_time = wall_clock rt (ticks w),
               end_time = wall_clock rt (ticks w),
               run_time = 0,
               g_out = None,
               diff_obj = None,
               lag_outcome = (if log_df c = [] then None else Some (outcome (last (log_df c))))\<rparr>],
           lines = lines c @
             [''NOK `'' @ fn_label r @ ''` at '' @ wall_clock rt (ticks w) @ '' ('' @ format_3f rt 0 @ ''s)'']\<rparr>,
      w\<lparr>ticks := Suc (ticks w)\<rparr>)"
  by (simp add: bind_record_def bind_with_def now_iso_def format_log_line_def)

theorem bind_record_absent_witness:
  "bind_record test_rt \<lparr>val = None, log_df = [], lines = []\<rparr> r_add10 [] [] w0 =
     (Inr \<lparr>val = None,
           log_df = [\<lparr>ops_number = 1, outcome = Failure, function_label = ''add10'',
                      message = Some ''Short-circuited due to Nothing'',
                      start_time = ''2025-01-01 12:00:00'', end_time = ''2025-01-01 12:00:00'',
                      run_time = 0, g_out = None, diff_obj = None, lag_outcome = None\<rparr>],
           lines = [''NOK `add10` at 2025-01-01 12:00:00 (0.000s)'']\<rparr>,
      \<lparr>ustate = 0, ticks = 1, func_calls = 0, g_calls = 0\<rparr>)"
  using bind_record_absent [of "\<lparr>val = None, log_df = [], lines = []\<rparr>" test_rt r_add10 "[]" "[]" w0]
  by (simp add: test_defs)

subsection \<open>C2: binding on a present value\<close>

text \<open>
  C2.  For every chronicle whose value is \<open>Some v\<close>, \<^verbatim>\<open>bind_record\<close> calls the next
  recorded function on \<open>v\<close> followed by the extra arguments.  An exception that leaves that
  call leaves \<^verbatim>\<open>bind_record\<close>; otherwise the result holds the next chronicle's value, the
  old rows followed by the next chronicle's rows renumbered from \<open>len(old rows) + 1\<close>
  (\<open>renumbered_spec\<close>), and the old lines followed by the next chronicle's lines.
  Consequently, in every chronicle of the public interface the value is present iff every
  row reports Success, that is, iff every step of the chain succeeded.
\<close>

theorem bind_record_present:
  "(val c = Some v \<longrightarrow>
      bind_record rt c r args kwargs w =
        (case rf_call rt r (v # args) kwargs w of
           (Inl e, w') \<Rightarrow> (Inl e, w')
         | (Inr next_ch, w') \<Rightarrow>
             (Inr \<lparr>val = val next_ch,
                   log_df = log_df c @ renumbered_spec (log_df c) (log_df next_ch),
                   lines = lines c @ lines next_ch\<rparr>, w')))
   \<and> (produced rt ch w1 \<longrightarrow> is_ok ch = (\<forall>row\<in>set (log_df ch). outcome row = Success))"
  using bind_record_Some [of c v rt r args kwargs w] produced_ok [of rt ch w1]
  by (simp add: is_ok_def)

theorem bind_record_present_witness:
  "bind_record test_rt \<lparr>val = Some (IntV 6), log_df = [], lines = []\<rparr> r_double [] [] w0 =
     (Inr \<lparr>val = Some (IntV 12),
           log_df = [\<lparr>ops_number = 1, outcome = Success, function_label = ''double'', message = None,
                      start_time = ''2025-01-01 12:00:00'', end_time = ''2025-01-01 12:00:00'',
                      run_time = 0, g_out = None, diff_obj = None, lag_outcome = None\<rparr>],
           lines = [''OK `double` at 2025-01-01 12:00:00 (0.000s)'']\<rparr>,
      \<lparr>ustate = 0, ticks = 4, func_calls = 1, g_calls = 0\<rparr>)
   \<and> is_ok (chronicle_of chain4) = False
   \<and> map outcome (log_df (chronicle_of chain4)) = [Success, Success, Failure, Failure]"
  using bind_record_present [of "\<lparr>val = Some (IntV 6), log_df = [], lines = []\<rparr>" "IntV 6" test_rt
      r_double "[]" "[]" w0 "chronicle_of chain4" "snd chain4"] chain4_produced
  by (simp add: test_defs call_defs renumbered_spec_def chain4_value chronicle_of_def)

subsection \<open>C3: the prior outcome\<close>

text \<open>
  C3.  In every chronicle returned by a call of a recorded function or by a sequence of
  \<^verbatim>\<open>bind_record\<close> calls on it, the \<^verbatim>\<open>lag_outcome\<close> of each row is the outcome of the
  row before it in the merged list, and it is \<open>None\<close> exactly for the first row.
\<close>

theorem lag_outcome_is_prior_outcome:
  "produced rt ch w \<Longrightarrow>
     log_df ch \<noteq> [] \<and>
     (\<forall>i<length (log_df ch).
        lag_outcome (log_df ch ! i) = (if i = 0 then None else Some (outcome (log_df ch ! (i - 1)))) \<and>
        (lag_outcome (log_df ch ! i) = None) = (i = 0))"
  using produced_lag [of rt ch w] produced_rows [of rt ch w]
  by (simp add: lag_linked_nth)

theorem lag_outcome_is_prior_outcome_witness:
  "log_df (chronicle_of chain4) \<noteq> [] \<and>
   lag_outcome (log_df (chronicle_of chain4) ! 0) = None \<and>
   lag_outcome (log_df (chronicle_of chain4) ! 3) = Some (outcome (log_df (chronicle_of chain4) ! 2)) \<and>
   map lag_outcome (log_df (chronicle_of chain4)) = [None, Some Success, Some Success, Some Failure]"
  using lag_outcome_is_prior_outcome [OF chain4_produced]
  by (simp add: chain4_value chronicle_of_def)

subsection \<open>C4: rows, lines and numbering\<close>

text \<open>
  C4.  Every chronicle returned by a call of a recorded function, or by \<^verbatim>\<open>bind_record\<close>
  on such a chronicle, has as many rows as lines, and the \<^verbatim>\<open>ops_number\<close> values of its
  rows are \<open>1, 2, ..., len(rows)\<close> in this order.
\<close>

theorem rows_lines_ops_contiguous:
  "produced rt ch w \<Longrightarrow>
     length (log_df ch) = length (lines ch) \<and>
     map ops_number (log_df ch) = [1..int (length (log_df ch))]"
  using produced_rows [of rt ch w] by (simp add: upto_as_map)

theorem rows_lines_ops_contiguous_witness:
  "length (log_df (chronicle_of chain4)) = 4 \<and> length (lines (chronicle_of chain4)) = 4 \<and>
   map ops_number (log_df (chronicle_of chain4)) = [1, 2, 3, 4]"
  using rows_lines_ops_contiguous [OF chain4_produced]
  by (simp add: chain4_value chronicle_of_def)

subsection \<open>C5: the strict policy\<close>

text \<open>
  C5.  When the wrapped callable returns normally, the strict policy is applied in order:
  with \<^verbatim>\<open>strict >= 2\<close> and at least one captured warning the outcome is Failure with
  the message \<^verbatim>\<open>"Warning: "\<close> followed by the text of the first warning; otherwise, with
  \<^verbatim>\<open>strict >= 3\<close> and a printed text that has a character that is not white space, the
  outcome is Failure with the message \<^verbatim>\<open>"Message: "\<close> followed by the stripped text;
  otherwise a returned chronicle reports Success.  At strictness 1 the warnings and the
  printed text change nothing: the call gives what it gives for the same callable with
  its warnings and its output taken away.
\<close>

theorem strict_policy_on_return:
  assumes "run (func r) args kwargs (ustate w) = (eff, s')" and "completion eff = Returned v"
  shows
   "(2 \<le> strict r \<and> warned eff \<noteq> [] \<longrightarrow>
       (\<exists>ch w'. rf_call rt r args kwargs w = (Inr ch, w') \<and> val ch = None \<and>
                map outcome (log_df ch) = [Failure] \<and>
                map message (log_df ch) = [Some (''Warning: '' @ hd (warned eff))]))
    \<and> (\<not> (2 \<le> strict r \<and> warned eff \<noteq> []) \<and> 3 \<le> strict r \<and> (\<exists>c\<in>set (printed eff). \<not> is_space c) \<longrightarrow>
       (\<exists>ch w'. rf_call rt r args kwargs w = (Inr ch, w') \<and> val ch = None \<and>
                map outcome (log_df ch) = [Failure] \<and>
                map message (log_df ch) = [Some (''Message: '' @ strip (printed eff))]))
    \<and> (\<not> (2 \<le> strict r \<and> warned eff \<noteq> []) \<and> \<not> (3 \<le> strict r \<and> (\<exists>c\<in>set (printed eff). \<not> is_space c)) \<longrightarrow>
       (\<forall>ch w'. rf_call rt r args kwargs w = (Inr ch, w') \<longrightarrow>
                val ch = Some v \<and> map outcome (log_df ch) = [Success] \<and> map message (log_df ch) = [None]))
    \<and> (strict r = 1 \<longrightarrow>
       rf_call rt r args kwargs w = rf_call rt (r\<lparr>func := silenced (func r)\<rparr>) args kwargs w)"
proof (intro conjI impI)
  assume "2 \<le> strict r \<and> warned eff \<noteq> []"
  then have "step_verdict rt r eff = Inr (v, False, Some (''Warning: '' @ hd (warned eff)))"
    using assms(2) by (simp add: step_verdict_def try_func_def strict_policy_def Let_def)
  then show "\<exists>ch w'. rf_call rt r args kwargs w = (Inr ch, w') \<and> val ch = None \<and>
                map outcome (log_df ch) = [Failure] \<and>
                map message (log_df ch) = [Some (''Warning: '' @ hd (warned eff))]"
    by (simp add: rf_call_verdict [OF assms(1)] compose_step_failed)
next
  assume "\<not> (2 \<le> strict r \<and> warned eff \<noteq> []) \<and> 3 \<le> strict r \<and> (\<exists>c\<in>set (printed eff). \<not> is_space c)"
  then have "step_verdict rt r eff = Inr (v, False, Some (''Message: '' @ strip (printed eff)))"
    using assms(2) strip_nonempty [of "printed eff"]
    by (auto simp: step_verdict_def try_func_def strict_policy_def Let_def)
  then show "\<exists>ch w'. rf_call rt r args kwargs w = (Inr ch, w') \<and> val ch = None \<and>
                map outcome (log_df ch) = [Failure] \<and>
                map message (log_df ch) = [Some (''Message: '' @ strip (printed eff))]"
    by (simp add: rf_call_verdict [OF assms(1)] compose_step_failed)
next
  assume "\<not> (2 \<le> strict r \<and> warned eff \<noteq> []) \<and> \<not> (3 \<le> strict r \<and> (\<exists>c\<in>set (printed eff). \<not> is_space c))"
  then have "step_verdict rt r eff = Inr (v, True, None)"
    using assms(2) strip_nonempty [of "printed eff"]
    by (auto simp: step_verdict_def try_func_def strict_policy_def Let_def)
  then show "\<forall>ch w'. rf_call rt r args kwargs w = (Inr ch, w') \<longrightarrow>
                val ch = Some v \<and> map outcome (log_df ch) = [Success] \<and> map message (log_df ch) = [None]"
    by (auto simp: rf_call_verdict [OF assms(1)] dest!: compose_step_shape)
next
  assume s: "strict r = 1"
  have run': "run (func (r\<lparr>func := silenced (func r)\<rparr>)) args kwargs (ustate w) = (eff\<lparr>warned := [], printed := []\<rparr>, s')"
    using assms(1) by (simp add: silenced_def)
  have v: "step_verdict rt (r\<lparr>func := silenced (func r)\<rparr>) (eff\<lparr>warned := [], printed := []\<rparr>) = step_verdict rt r eff"
    using s by (auto simp: step_verdict_def strict_policy_def Let_def split: sum.splits prod.splits)
  note c = compose_step_silenced [of rt r]
  show "rf_call rt r args kwargs w = rf_call rt (r\<lparr>func := silenced (func r)\<rparr>) args kwargs w"
    by (simp add: rf_call_verdict [OF assms(1)] rf_call_verdict [OF run'] v c split: sum.splits prod.splits)
qed


theorem strict_policy_on_return_witness:
  "(\<exists>ch w'. rf_call test_rt (r_noisy 2) [] [] w0 = (Inr ch, w') \<and> val ch = None \<and>
       map outcome (log_df ch) = [Failure] \<and>
       map message (log_df ch) = [Some ''Warning: deprecated''])
   \<and> (\<exists>ch w'. rf_call test_rt (r_talker 3) [] [] w0 = (Inr ch, w') \<and> val ch = None \<and>
       map outcome (log_df ch) = [Failure] \<and>
       map message (log_df ch) = [Some ''Message: hi''])
   \<and> rf_call test_rt (r_noisy 1) [] [] w0 =
       rf_call test_rt ((r_noisy 1)\<lparr>func := silenced (func (r_noisy 1))\<rparr>) [] [] w0"
proof -
  have strip_hi: "strip '' hi '' = ''hi''"
    by (simp add: strip_def is_space_def)
  have noisy: "run (func (r_noisy st)) [] [] (ustate w0) =
      (\<lparr>completion = Returned (IntV 1), warned = [''deprecated'', ''slow''], printed = '' hi ''\<rparr>, 0)" for st
    by (simp add: r_noisy_def emitter_def test_defs)
  have talker: "run (func (r_talker st)) [] [] (ustate w0) =
      (\<lparr>completion = Returned (IntV 1), warned = [], printed = '' hi ''\<rparr>, 0)" for st
    by (simp add: r_talker_def emitter_def test_defs)
  have s2: "strict (r_noisy 2) = 2" and s3: "strict (r_talker 3) = 3" and s1: "strict (r_noisy 1) = 1"
    by (simp_all add: r_noisy_def r_talker_def test_defs)
  show ?thesis
    using strict_policy_on_return [OF noisy [of 2], of "IntV 1" test_rt]
      strict_policy_on_return [OF talker [of 3], of "IntV 1" test_rt]
      strict_policy_on_return [OF noisy [of 1], of "IntV 1" test_rt]
    by (simp add: s1 s2 s3 strip_hi is_space_def)
qed

subsection \<open>C6: exceptions of the wrapped callable\<close>




subsection \<open>C7: exceptions of the inspector\<close>




subsection \<open>C8: the diff summary\<close>



subsection \<open>C9: associativity of binding\<close>

text \<open>
  C9.  The claim as stated fails when the first step has failed: after \<^verbatim>\<open>r_fail(5)\<close>
  the chain \<^verbatim>\<open>.bind_record(r_double).bind_record(r_add10)\<close> adds two short-circuit rows,
  one for each recorded function, and the bind of the combined step adds one.
\<close>

theorem bind_associativity_counterexample:
  "length (log_df (chronicle_of chained)) = 3 \<and> length (log_df (chronicle_of combined)) = 2
   \<and> map function_label (log_df (chronicle_of chained)) = [''will_fail'', ''double'', ''add10'']
   \<and> map function_label (log_df (chronicle_of combined)) = [''will_fail'', ''double_then_add10'']"
  by (simp add: chained_def combined_def failed_start_def chronicle_of_def test_defs call_defs bind_defs)

text \<open>
  C9, amended.  For every chronicle \<open>a\<close> whose value is present and all recorded
  functions \<open>b\<close> and \<open>c\<close>, binding \<open>b\<close> and then \<open>c\<close> gives the same result (value,
  rows, lines, and the same world or the same exception) as binding once the combined step
  "\<open>b\<close> then \<open>c\<close>", whatever label the combined step carries.  When the value of \<open>a\<close>
  is absent, both give an absent value, but the chain adds two rows and the combined step
  one.
\<close>

theorem bind_associativity:
  "(val a = Some v \<longrightarrow>
      and_then (bind_record rt a b args kwargs w) (\<lambda>ch. bind_record rt ch c c_args c_kwargs) =
      bind_with rt a lbl (combined_call rt b c c_args c_kwargs) args kwargs w)
   \<and> (val a = None \<longrightarrow>
      length (log_df (chronicle_of
        (and_then (bind_record rt a b args kwargs w) (\<lambda>ch. bind_record rt ch c c_args c_kwargs))))
        = length (log_df a) + 2 \<and>
      length (log_df (chronicle_of
        (bind_with rt a lbl (combined_call rt b c c_args c_kwargs) args kwargs w)))
        = length (log_df a) + 1 \<and>
      val (chronicle_of
        (and_then (bind_record rt a b args kwargs w) (\<lambda>ch. bind_record rt ch c c_args c_kwargs)))
        = None \<and>
      val (chronicle_of
        (bind_with rt a lbl (combined_call rt b c c_args c_kwargs) args kwargs w)) = None)"
proof (intro conjI impI)
  assume a: "val a = Some v"
  have comb: "combined_call rt b c c_args c_kwargs =
      (\<lambda>xs ks w1. and_then (rf_call rt b xs ks w1)
                     (\<lambda>ch. bind_with rt ch (fn_label c) (rf_call rt c) c_args c_kwargs))"
    by (intro ext) (simp add: combined_call_def bind_record_as_bind_with)
  show "and_then (bind_record rt a b args kwargs w) (\<lambda>ch. bind_record rt ch c c_args c_kwargs) =
        bind_with rt a lbl (combined_call rt b c c_args c_kwargs) args kwargs w"
    unfolding comb bind_record_as_bind_with by (rule merge_assoc [OF a])
next
  assume a: "val a = None"
  show "length (log_df (chronicle_of
          (and_then (bind_record rt a b args kwargs w) (\<lambda>ch. bind_record rt ch c c_args c_kwargs))))
        = length (log_df a) + 2"
    using a by (simp add: bind_record_None and_then_def chronicle_of_def)
  show "length (log_df (chronicle_of
          (bind_with rt a lbl (combined_call rt b c c_args c_kwargs) args kwargs w)))
        = length (log_df a) + 1"
    using a by (simp add: bind_with_None chronicle_of_def)
  show "val (chronicle_of
          (and_then (bind_record rt a b args kwargs w) (\<lambda>ch. bind_record rt ch c c_args c_kwargs)))
        = None"
    using a by (simp add: bind_record_None and_then_def chronicle_of_def)
  show "val (chronicle_of
          (bind_with rt a lbl (combined_call rt b c c_args c_kwargs) args kwargs w)) = None"
    using a by (simp add: bind_with_None chronicle_of_def)
qed

theorem bind_associativity_witness:
  "and_then (bind_record test_rt \<lparr>val = Some (IntV 5), log_df = [], lines = []\<rparr> r_add1 [] [] w0)
            (\<lambda>ch. bind_record test_rt ch r_double [] []) =
   bind_with test_rt \<lparr>val = Some (IntV 5), log_df = [], lines = []\<rparr> ''add1_then_double''
     (combined_call test_rt r_add1 r_double [] []) [] [] w0
   \<and> length (log_df (chronicle_of
        (and_then (bind_record test_rt \<lparr>val = None, log_df = [], lines = []\<rparr> r_add1 [] [] w0)
                  (\<lambda>ch. bind_record test_rt ch r_double [] [])))) = 2
   \<and> length (log_df (chronicle_of
        (bind_with test_rt \<lparr>val = None, log_df = [], lines = []\<rparr> ''add1_then_double''
           (combined_call test_rt r_add1 r_double [] []) [] [] w0))) = 1"
  using bind_associativity [of "\<lparr>val = Some (IntV 5), log_df = [], lines = []\<rparr>" "IntV 5" test_rt
      r_add1 "[]" "[]" w0 r_double "[]" "[]" "''add1_then_double''"]
    bind_associativity [of "\<lparr>val = None, log_df = [], lines = []\<rparr>" "IntV 5" test_rt
      r_add1 "[]" "[]" w0 r_double "[]" "[]" "''add1_then_double''"]
  by simp

subsection \<open>C10: strictness is read through two thresholds\<close>

text \<open>
  C10.  The constructor raises exactly when the diff mode is none of \<^verbatim>\<open>"none"\<close>,
  \<^verbatim>\<open>"summary"\<close>, \<^verbatim>\<open>"full"\<close>; it accepts every integer strictness and stores it as it
  is.  A call with a strictness below 2 is the call with strictness 1, and a call with a
  strictness above 3 is the call with strictness 3 (on all arguments and in all worlds).
\<close>

theorem strictness_thresholds:
  "((\<exists>e. RecordedFunction_init f st gi d name = Inl e) = (d \<notin> set [''none'', ''summary'', ''full'']))
   \<and> (d \<in> set [''none'', ''summary'', ''full''] \<longrightarrow>
        (\<exists>r. RecordedFunction_init f st gi d name = Inr r \<and> strict r = st))
   \<and> (st < 2 \<longrightarrow> rf_call rt (r\<lparr>strict := st\<rparr>) = rf_call rt (r\<lparr>strict := 1\<rparr>))
   \<and> (3 < st \<longrightarrow> rf_call rt (r\<lparr>strict := st\<rparr>) = rf_call rt (r\<lparr>strict := 3\<rparr>))"
proof (intro conjI impI)
  show "(\<exists>e. RecordedFunction_init f st gi d name = Inl e) = (d \<notin> set [''none'', ''summary'', ''full''])"
    by (simp add: RecordedFunction_init_def)
next
  assume "d \<in> set [''none'', ''summary'', ''full'']"
  then show "\<exists>r. RecordedFunction_init f st gi d name = Inr r \<and> strict r = st"
    by (auto simp: RecordedFunction_init_def)
next
  assume "st < 2"
  then show "rf_call rt (r\<lparr>strict := st\<rparr>) = rf_call rt (r\<lparr>strict := 1\<rparr>)"
    by (intro rf_call_strict_cong) (simp add: strict_policy_low)
next
  assume "3 < st"
  then show "rf_call rt (r\<lparr>strict := st\<rparr>) = rf_call rt (r\<lparr>strict := 3\<rparr>)"
    by (intro rf_call_strict_cong) (simp add: strict_policy_def Let_def)
qed

theorem strictness_thresholds_witness:
  "(\<exists>r. RecordedFunction_init (emitter (Returned (IntV 1)) [] []) (- 7) None ''full'' None = Inr r
        \<and> strict r = - 7)
   \<and> (\<exists>e. RecordedFunction_init (emitter (Returned (IntV 1)) [] []) 1 None ''fancy'' None = Inl e)
   \<and> rf_call test_rt (r_noisy (- 7)) = rf_call test_rt (r_noisy 1)
   \<and> rf_call test_rt (r_noisy 99) = rf_call test_rt (r_noisy 3)"
  using strictness_thresholds [of "emitter (Returned (IntV 1)) [] []" "- 7" None "''full''" None test_rt "r_noisy 0"]
    strictness_thresholds [of "emitter (Returned (IntV 1)) [] []" 1 None "''fancy''" None test_rt "r_noisy 0"]
    strictness_thresholds [of "emitter (Returned (IntV 1)) [] []" 99 None "''full''" None test_rt "r_noisy 0"]
  by (simp add: r_noisy_def)

end
